theory Spec2Isabelle
  imports Complex_Main
begin

section \<open>Tap-on-face attendance: the model of streamlit_app.py\<close>

text \<open>
  The program is a Tk application: a roster (a pandas frame read from a CSV file), a photo,
  a list of detected face boxes, and an operator who clicks boxes to bind them to roster
  rows. The model keeps the data the program computes with and leaves the widgets out:
  the canvas items, the dialogs and the message boxes are not state of the model. What an
  operator answers to a dialog, what the canvas reports as its size and what the wall
  clock reads are arguments of the functions below.

  Python's \<open>float\<close> is modelled by the rationals: \<open>/\<close> is exact division. Python's
  unbounded \<open>int\<close> is \<open>int\<close>; an index into the frame (a \<open>RangeIndex\<close>, as
  \<open>read_csv\<close> builds it) is a \<open>nat\<close>, the position of the row.
\<close>

subsection \<open>Exceptions\<close>

datatype py_error = ZeroDivisionError | KeyError | ReError

subsection \<open>Roster\<close>

text \<open>
  A row of the frame after \<open>fillna("")\<close>: every cell is a string. \<open>has_section\<close>
  says whether the frame has a column \<open>Section\<close>; when it has none, the cell
  \<open>Section\<close> of a row is never read.
\<close>

record RosterRow =
  Admission_No :: string
  Name :: string
  Section :: string

record Roster =
  has_section :: bool
  df :: "RosterRow list"

subsection \<open>FaceBox\<close>

text \<open>
  The fields \<open>x, y, w, h, id, assigned_idx\<close> of the class. The two canvas handles
  \<open>rect_obj\<close> and \<open>text_obj\<close> belong to the drawing and are not modelled.
\<close>

record FaceBox =
  fb_x :: int
  fb_y :: int
  fb_w :: int
  fb_h :: int
  fb_id :: int
  assigned_idx :: "nat option"

definition FaceBox_init :: "int \<Rightarrow> int \<Rightarrow> int \<Rightarrow> int \<Rightarrow> int \<Rightarrow> FaceBox" where
  "FaceBox_init x y w h face_id =
     \<lparr>fb_x = x, fb_y = y, fb_w = w, fb_h = h, fb_id = face_id, assigned_idx = None\<rparr>"

definition contains :: "FaceBox \<Rightarrow> int \<Rightarrow> int \<Rightarrow> bool" where
  "contains fb px py =
     (fb_x fb \<le> px \<and> px \<le> fb_x fb + fb_w fb \<and> fb_y fb \<le> py \<and> py \<le> fb_y fb + fb_h fb)"

subsection \<open>App\<close>

text \<open>
  \<open>image_size\<close> is \<open>self.image.size\<close>, or \<open>None\<close> while no photo is open;
  \<open>present_list\<close> holds the lines of the list box of the side bar.
\<close>

record App =
  roster :: Roster
  image_size :: "(int \<times> int) option"
  photo_path :: "string option"
  faces :: "FaceBox list"
  scale :: rat
  offset :: "int \<times> int"
  present_list :: "string list"

definition App_init :: App where
  "App_init =
     \<lparr>roster = \<lparr>has_section = True, df = []\<rparr>, image_size = None, photo_path = None,
      faces = [], scale = 1, offset = (0, 0), present_list = []\<rparr>"

subsection \<open>Letterbox fit and the two coordinate maps\<close>

text \<open>Python's \<open>int(f)\<close> on a float: truncation towards zero.\<close>

definition py_int :: "rat \<Rightarrow> int" where
  "py_int r = (if 0 \<le> r then \<lfloor>r\<rfloor> else \<lceil>r\<rceil>)"

text \<open>
  Every method of \<open>App\<close> returns \<open>None\<close>; what tells one run from another is the
  way it left: to the end (\<open>Done\<close>), through one of its early \<open>return\<close>s, or with an
  exception. The model returns that way together with the state the method leaves behind.

  \<open>draw_image\<close> has three ways out before it stores anything: no photo (\<open>NoImage\<close>),
  a canvas that is not laid out yet (\<open>cw <= 1 or ch <= 1\<close>, \<open>NotReady\<close>), and the
  \<open>ZeroDivisionError\<close> of \<open>cw / iw\<close> for an image without pixels. \<open>cw\<close> and
  \<open>ch\<close> are what \<open>winfo_width\<close> and \<open>winfo_height\<close> return. Resizing the picture
  and drawing it are taken to succeed.
\<close>

datatype outcome = Done | NoImage | NotReady | NoSelection | Declined | NoRoster | Raised py_error

definition draw_image :: "App \<Rightarrow> int \<Rightarrow> int \<Rightarrow> outcome \<times> App" where
  "draw_image app cw ch =
     (case image_size app of
        None \<Rightarrow> (NoImage, app)
      | Some (iw, ih) \<Rightarrow>
          if cw \<le> 1 \<or> ch \<le> 1 then (NotReady, app)
          else if iw = 0 \<or> ih = 0 then (Raised ZeroDivisionError, app)
          else
            let sc = min (of_int cw / of_int iw) (of_int ch / of_int ih);
                new_w = py_int (of_int iw * sc);
                new_h = py_int (of_int ih * sc);
                x_off = (cw - new_w) div 2;
                y_off = (ch - new_h) div 2
            in (Done, app\<lparr>scale := sc, offset := (x_off, y_off)\<rparr>))"


definition canvas_to_image_coords :: "App \<Rightarrow> int \<Rightarrow> int \<Rightarrow> py_error + int \<times> int" where
  "canvas_to_image_coords app px py =
     (if scale app = 0 then Inl ZeroDivisionError
      else Inr (py_int (of_int (px - fst (offset app)) / scale app),
                py_int (of_int (py - snd (offset app)) / scale app)))"

text \<open>A photo of the given size is open, nothing else has happened.\<close>

definition photo_app :: "int \<Rightarrow> int \<Rightarrow> App" where
  "photo_app iw ih = App_init\<lparr>image_size := Some (iw, ih)\<rparr>"

subsection \<open>Roster.search and Roster.get_display\<close>

text \<open>
  Strings are byte strings (UTF-8). \<open>strip\<close> and \<open>lower\<close> are modelled on ASCII: the
  white space that \<open>str.strip\<close> removes is the characters 9 to 13, 28 to 31 and 32, and
  \<open>str.lower\<close> maps \<open>A\<close> to \<open>Z\<close> onto \<open>a\<close> to \<open>z\<close>.
\<close>

definition is_space :: "char \<Rightarrow> bool" where
  "is_space c =
     (let n = (of_char c :: nat) in (9 \<le> n \<and> n \<le> 13) \<or> (28 \<le> n \<and> n \<le> 32))"

definition strip :: "string \<Rightarrow> string" where
  "strip s = rev (dropWhile is_space (rev (dropWhile is_space s)))"

definition lower_char :: "char \<Rightarrow> char" where
  "lower_char c =
     (let n = (of_char c :: nat) in if 65 \<le> n \<and> n \<le> 90 then char_of (n + 32) else c)"

definition lower :: "string \<Rightarrow> string" where
  "lower s = map lower_char s"

text \<open>
  \<open>Series.str.contains(q)\<close> takes \<open>q\<close> as a regular expression: it compiles \<open>q\<close>
  and keeps the rows in which the expression is found. The regular expression engine is
  the argument \<open>re_compile\<close>: \<open>None\<close> when the pattern does not compile
  (\<open>re.error\<close>), otherwise the test "the pattern is found in this text".
\<close>

definition search ::
  "(string \<Rightarrow> (string \<Rightarrow> bool) option) \<Rightarrow> Roster \<Rightarrow> string \<Rightarrow> py_error + nat list" where
  "search re_compile r query =
     (let q = lower (strip query) in
      if q = [] then Inr [0..<length (df r)]
      else
        (case re_compile q of
           None \<Rightarrow> Inl ReError
         | Some found \<Rightarrow>
             Inr (filter (\<lambda>i. found (lower (Name (df r ! i))) \<or> found (Admission_No (df r ! i)))
                    [0..<length (df r)])))"

text \<open>
  A pattern of letters and digits only has no operator of the regular expression
  language in it: it is found in a text exactly when it occurs there as a substring.
\<close>

fun is_substring :: "string \<Rightarrow> string \<Rightarrow> bool" where
  "is_substring q [] = (q = [])"
| "is_substring q (c # cs) = (take (length q) (c # cs) = q \<or> is_substring q cs)"

definition re_plain :: "string \<Rightarrow> (string \<Rightarrow> bool) option" where
  "re_plain q = Some (is_substring q)"

text \<open>
  \<open>get_display\<close>: \<open>df.loc[idx]\<close> raises \<open>KeyError\<close> for an index the frame does not
  have. The separator is two blanks, an em dash (three bytes) and two blanks.
\<close>

definition get_display :: "Roster \<Rightarrow> nat \<Rightarrow> py_error + string" where
  "get_display r idx =
     (if idx < length (df r) then
        let row = df r ! idx;
            sec = (if has_section r \<and> Section row \<noteq> [] then '' ('' @ Section row @ '')'' else [])
        in Inr (Name row @ sec @ ''  '' @ [CHR 0xE2, CHR 0x80, CHR 0x94] @ ''  '' @ Admission_No row)
      else Inl KeyError)"

subsection \<open>Clicking a face\<close>

text \<open>
  The loop of \<open>on_click\<close> over \<open>reversed(self.faces)\<close>: the first box that contains the
  point, with its position in \<open>self.faces\<close>, is the one \<open>assign_dialog\<close> is opened
  for.
\<close>

definition hit_test :: "FaceBox list \<Rightarrow> int \<Rightarrow> int \<Rightarrow> (nat \<times> FaceBox) option" where
  "hit_test fs ix iy = List.find (\<lambda>(j, fb). contains fb ix iy) (rev (enumerate 0 fs))"

definition on_click :: "App \<Rightarrow> int \<Rightarrow> int \<Rightarrow> py_error + (nat \<times> FaceBox) option" where
  "on_click app ex ey =
     (if faces app = [] then Inr None
      else
        (case canvas_to_image_coords app ex ey of
           Inl e \<Rightarrow> Inl e
         | Inr (ix, iy) \<Rightarrow> Inr (hit_test (faces app) ix iy)))"

subsection \<open>The list of present students\<close>

text \<open>
  \<open>refresh_present_list\<close> empties the list box and inserts one line for each roster
  index met for the first time. When \<open>get_display\<close> raises, the lines inserted so far
  stay in the list box.
\<close>

fun present_lines ::
  "Roster \<Rightarrow> nat set \<Rightarrow> string list \<Rightarrow> FaceBox list \<Rightarrow> py_error option \<times> string list" where
  "present_lines r seen acc [] = (None, acc)"
| "present_lines r seen acc (fb # fbs) =
     (case assigned_idx fb of
        None \<Rightarrow> present_lines r seen acc fbs
      | Some i \<Rightarrow>
          if i \<in> seen then present_lines r seen acc fbs
          else
            (case get_display r i of
               Inl e \<Rightarrow> (Some e, acc)
             | Inr s \<Rightarrow> present_lines r (insert i seen) (acc @ [s]) fbs))"

definition refresh_present_list :: "App \<Rightarrow> outcome \<times> App" where
  "refresh_present_list app =
     (case present_lines (roster app) {} [] (faces app) of
        (None, ls) \<Rightarrow> (Done, app\<lparr>present_list := ls\<rparr>)
      | (Some e, ls) \<Rightarrow> (Raised e, app\<lparr>present_list := ls\<rparr>))"

subsection \<open>Assigning a student to a face\<close>

text \<open>
  \<open>do_assign\<close> of \<open>assign_dialog\<close>. The dialog was opened for the box at position
  \<open>k\<close> of \<open>self.faces\<close> (\<open>other is not fb\<close> compares objects, that is, positions).
  \<open>sel\<close> is the roster index written at the head of the selected line of the dialog's
  list box, \<open>None\<close> when no line is selected. \<open>askyesno n\<close> is the operator's answer
  to the \<open>n\<close>-th "Duplicate" question of this run, counted from 0.

  The loop asks once for each other box that holds the index and leaves at the first
  "no". A dialog whose box is no longer in \<open>self.faces\<close> has a position beyond the list:
  then every box is another one, and the update changes no box of the list.
\<close>

fun confirm_duplicates ::
  "(nat \<Rightarrow> bool) \<Rightarrow> nat \<Rightarrow> nat \<Rightarrow> nat \<Rightarrow> (nat \<times> FaceBox) list \<Rightarrow> bool" where
  "confirm_duplicates askyesno n k idx [] = True"
| "confirm_duplicates askyesno n k idx ((j, other) # rest) =
     (if j \<noteq> k \<and> assigned_idx other = Some idx
      then (if askyesno n then confirm_duplicates askyesno (Suc n) k idx rest else False)
      else confirm_duplicates askyesno n k idx rest)"

definition do_assign :: "App \<Rightarrow> nat \<Rightarrow> nat option \<Rightarrow> (nat \<Rightarrow> bool) \<Rightarrow> outcome \<times> App" where
  "do_assign app k sel askyesno =
     (case sel of
        None \<Rightarrow> (NoSelection, app)
      | Some idx \<Rightarrow>
          if confirm_duplicates askyesno 0 k idx (enumerate 0 (faces app))
          then refresh_present_list
                 (app\<lparr>faces := (faces app)[k := (faces app ! k)\<lparr>assigned_idx := Some idx\<rparr>]\<rparr>)
          else (Declined, app))"

text \<open>The other boxes that hold \<open>idx\<close>, with their positions: one question each.\<close>

definition duplicates :: "FaceBox list \<Rightarrow> nat \<Rightarrow> nat \<Rightarrow> (nat \<times> FaceBox) list" where
  "duplicates fs k idx =
     filter (\<lambda>(j, other). j \<noteq> k \<and> assigned_idx other = Some idx) (enumerate 0 fs)"

subsection \<open>Removing a student from the list of present students\<close>

text \<open>
  \<open>remove_selected\<close> reads the text of the selected line and clears the first box whose
  student has that text as display. \<open>sel\<close> is the position of the selected line; the
  list box answers a position it does not have with the empty string.
\<close>

fun clear_first :: "Roster \<Rightarrow> string \<Rightarrow> FaceBox list \<Rightarrow> py_error + FaceBox list" where
  "clear_first r disp [] = Inr []"
| "clear_first r disp (fb # fbs) =
     (case assigned_idx fb of
        None \<Rightarrow> (case clear_first r disp fbs of Inl e \<Rightarrow> Inl e | Inr fbs' \<Rightarrow> Inr (fb # fbs'))
      | Some i \<Rightarrow>
          (case get_display r i of
             Inl e \<Rightarrow> Inl e
           | Inr s \<Rightarrow>
               if s = disp then Inr (fb\<lparr>assigned_idx := None\<rparr> # fbs)
               else (case clear_first r disp fbs of Inl e \<Rightarrow> Inl e | Inr fbs' \<Rightarrow> Inr (fb # fbs'))))"

definition remove_selected :: "App \<Rightarrow> nat option \<Rightarrow> outcome \<times> App" where
  "remove_selected app sel =
     (case sel of
        None \<Rightarrow> (NoSelection, app)
      | Some s \<Rightarrow>
          let disp = (if s < length (present_list app) then present_list app ! s else [])
          in (case clear_first (roster app) disp (faces app) of
                Inl e \<Rightarrow> (Raised e, app)
              | Inr fs \<Rightarrow> refresh_present_list (app\<lparr>faces := fs\<rparr>)))"

subsection \<open>Saving the attendance\<close>

text \<open>
  A row of the frame that \<open>save_attendance\<close> hands to \<open>to_excel\<close>. The wall clock is
  the argument \<open>now\<close>: \<open>now k\<close> is the time, in whole seconds, that the \<open>k\<close>-th call of
  \<open>datetime.now()\<close> of this run returns, counted from 0. The first call names the file,
  each row of the roster makes one more.
\<close>

record AttendanceRecord =
  out_Admission_No :: string
  out_Name :: string
  out_Section :: string
  Status :: string
  Photo :: string
  Saved_At :: nat

definition basename :: "string \<Rightarrow> string" where
  "basename p = rev (takeWhile (\<lambda>c. c \<noteq> CHR ''/'') (rev p))"

definition present_idxs :: "FaceBox list \<Rightarrow> nat set" where
  "present_idxs fs = set (List.map_filter assigned_idx fs)"

fun status_rows ::
  "App \<Rightarrow> nat set \<Rightarrow> (nat \<Rightarrow> nat) \<Rightarrow> nat \<Rightarrow> RosterRow list \<Rightarrow> AttendanceRecord list" where
  "status_rows app present now i [] = []"
| "status_rows app present now i (row # rows) =
     \<lparr>out_Admission_No = Admission_No row,
      out_Name = Name row,
      out_Section = (if has_section (roster app) then Section row else []),
      Status = (if i \<in> present then ''Present'' else ''Absent''),
      Photo = (case photo_path app of None \<Rightarrow> [] | Some p \<Rightarrow> if p = [] then [] else basename p),
      Saved_At = now (Suc i)\<rparr>
     # status_rows app present now (Suc i) rows"

definition save_attendance ::
  "App \<Rightarrow> (nat \<Rightarrow> nat) \<Rightarrow> outcome \<times> App \<times> (nat \<times> AttendanceRecord list) option" where
  "save_attendance app now =
     (if df (roster app) = [] then (NoRoster, app, None)
      else
        (Done, app,
         Some (now 0, status_rows app (present_idxs (faces app)) now 0 (df (roster app)))))"

definition count_present :: "AttendanceRecord list \<Rightarrow> nat" where
  "count_present recs = length (filter (\<lambda>r. Status r = ''Present'') recs)"

subsection \<open>Loading a roster\<close>

text \<open>
  \<open>load_roster\<close> replaces the frame of the roster and nothing else; the boxes and
  their bindings stay. \<open>loaded\<close> is the frame \<open>load_csv\<close> has read, \<open>None\<close> when
  no file was picked or the file was refused (an error box, the roster is kept).
\<close>

definition load_roster :: "App \<Rightarrow> Roster option \<Rightarrow> outcome \<times> App" where
  "load_roster app loaded =
     (case loaded of None \<Rightarrow> (NoSelection, app) | Some r \<Rightarrow> (Done, app\<lparr>roster := r\<rparr>))"

subsection \<open>Sample states\<close>

text \<open>
  The roster of the specification's scenario, a box bound to a roster index, and a clock
  on which a second passes while the first row of a report is written.
\<close>

definition ann_bob :: Roster where
  "ann_bob =
     \<lparr>has_section = False,
      df = [\<lparr>Admission_No = ''A001'', Name = ''Ann'', Section = []\<rparr>,
            \<lparr>Admission_No = ''A002'', Name = ''Bob'', Section = []\<rparr>]\<rparr>"

definition bound_to :: "nat \<Rightarrow> int \<Rightarrow> FaceBox" where
  "bound_to i face_id = (FaceBox_init 0 0 40 40 face_id)\<lparr>assigned_idx := Some i\<rparr>"

definition second_passes :: "nat \<Rightarrow> nat" where
  "second_passes k = (if k \<le> 1 then 100 else 101)"

definition scenario_app :: App where
  "scenario_app = App_init\<lparr>roster := ann_bob, faces := [bound_to 0 1]\<rparr>"

text \<open>
  A class of six with the last student bound to the only box; then the roster of Ann and
  Bob is loaded.
\<close>

definition six_students :: Roster where
  "six_students =
     \<lparr>has_section = False,
      df = [\<lparr>Admission_No = ''B001'', Name = ''Cy'', Section = []\<rparr>,
            \<lparr>Admission_No = ''B002'', Name = ''Di'', Section = []\<rparr>,
            \<lparr>Admission_No = ''B003'', Name = ''Ed'', Section = []\<rparr>,
            \<lparr>Admission_No = ''B004'', Name = ''Flo'', Section = []\<rparr>,
            \<lparr>Admission_No = ''B005'', Name = ''Gus'', Section = []\<rparr>,
            \<lparr>Admission_No = ''B006'', Name = ''Hal'', Section = []\<rparr>]\<rparr>"

definition stale_app :: App where
  "stale_app =
     snd (load_roster (App_init\<lparr>roster := six_students, faces := [bound_to 5 1]\<rparr>)
            (Some ann_bob))"

text \<open>An operator who confirms every question, and one who declines every question.\<close>

definition yes :: "nat \<Rightarrow> bool" where
  "yes n = True"

definition no :: "nat \<Rightarrow> bool" where
  "no n = False"

text \<open>Two boxes: the first bound to Ann, the second free.\<close>

definition two_faces :: App where
  "two_faces = App_init\<lparr>roster := ann_bob, faces := [bound_to 0 1, FaceBox_init 50 50 40 40 2]\<rparr>"

text \<open>A roster that lists Ann twice, in two rows that read the same.\<close>

definition twins :: Roster where
  "twins =
     \<lparr>has_section = False,
      df = [\<lparr>Admission_No = ''A001'', Name = ''Ann'', Section = []\<rparr>,
            \<lparr>Admission_No = ''A001'', Name = ''Ann'', Section = []\<rparr>]\<rparr>"

text \<open>
  Three boxes over a roster: the first bound to row 1, the other two to row 0, and the
  list of present students as \<open>refresh_present_list\<close> leaves it.
\<close>

definition three_faces :: "Roster \<Rightarrow> App" where
  "three_faces r =
     snd (refresh_present_list
            (App_init\<lparr>roster := r, faces := [bound_to 1 1, bound_to 0 2, bound_to 0 3]\<rparr>))"

text \<open>The rows of the frame of a run of \<open>save_attendance\<close>, none when it wrote none.\<close>

definition report_of ::
  "outcome \<times> App \<times> (nat \<times> AttendanceRecord list) option \<Rightarrow> AttendanceRecord list" where
  "report_of res = (case snd (snd res) of None \<Rightarrow> [] | Some (stamp, recs) \<Rightarrow> recs)"

section \<open>Properties\<close>

subsection \<open>Letterbox fit\<close>

lemma py_int_of_int [simp]: "py_int (of_int n) = n"
  by (simp add: py_int_def)


text \<open>
  Claim C3, as the code has it: for an image of 800 by 600 in a canvas of 400 by 400,
  \<open>draw_image\<close> stores the scale 1/2 and the offset (0, 50): the picture is drawn 400 by
  300, and half of the 100 free rows lie above it.
\<close>

theorem draw_image_800_600_in_400_400:
  "draw_image (photo_app 800 600) 400 400 =
     (Done, (photo_app 800 600)\<lparr>scale := 1 / 2, offset := (0, 50)\<rparr>)"
  by (simp add: draw_image_def photo_app_def App_init_def Let_def min_def py_int_def)

text \<open>
  Claim C3, as the specification states it, fails: the stored offset is not (0, 100).
\<close>

theorem draw_image_800_600_offset_not_100:
  "offset (snd (draw_image (photo_app 800 600) 400 400)) \<noteq> (0, 100)"
  by (simp add: draw_image_def photo_app_def App_init_def Let_def min_def py_int_def)

subsection \<open>The not-ready guard\<close>



subsection \<open>Round trip through the display\<close>








subsection \<open>Clicking a face\<close>

lemma hit_test_Nil: "hit_test [] px py = None"
  by (simp add: hit_test_def)

lemma hit_test_snoc:
  "hit_test (fs @ [fb]) px py =
     (if contains fb px py then Some (length fs, fb) else hit_test fs px py)"
  by (simp add: hit_test_def enumerate_append_eq)

lemma hit_test_None_iff:
  "hit_test fs px py = None \<longleftrightarrow> (\<forall>j<length fs. \<not> contains (fs ! j) px py)"
proof (induction fs rule: rev_induct)
  case Nil
  show ?case by (simp add: hit_test_Nil)
next
  case (snoc fb fs)
  show ?case
    by (auto simp: hit_test_snoc snoc.IH nth_append less_Suc_eq)
qed

lemma hit_test_Some_iff:
  "hit_test fs px py = Some (j, fb) \<longleftrightarrow>
     j < length fs \<and> fb = fs ! j \<and> contains fb px py \<and>
     (\<forall>k<length fs. j < k \<longrightarrow> \<not> contains (fs ! k) px py)"
proof (induction fs rule: rev_induct)
  case Nil
  show ?case by (simp add: hit_test_Nil)
next
  case (snoc b fs)
  show ?case
  proof (cases "contains b px py")
    case True
    then show ?thesis
      by (auto simp: hit_test_snoc nth_append less_Suc_eq)
  next
    case False
    then show ?thesis
      by (auto simp: hit_test_snoc snoc.IH nth_append less_Suc_eq)
  qed
qed

text \<open>
  Claim C7. \<open>hit_test\<close> finds no box exactly when no box of the list contains the
  point; otherwise it returns the box that contains the point and has the greatest
  position in the list, so of two boxes \<open>A\<close>, \<open>B\<close> detected in this order that both
  contain the point it returns \<open>B\<close>. A box contains the points from \<open>x\<close> to
  \<open>x + w\<close> and from \<open>y\<close> to \<open>y + h\<close>, the edges included.
\<close>

theorem hit_test_topmost:
  "(hit_test fs px py = None \<longleftrightarrow> (\<forall>j<length fs. \<not> contains (fs ! j) px py)) \<and>
   (\<forall>j fb. hit_test fs px py = Some (j, fb) \<longleftrightarrow>
      j < length fs \<and> fb = fs ! j \<and> contains fb px py \<and>
      (\<forall>k<length fs. j < k \<longrightarrow> \<not> contains (fs ! k) px py)) \<and>
   (\<forall>A B. contains A px py \<and> contains B px py \<longrightarrow> hit_test [A, B] px py = Some (1, B)) \<and>
   (\<forall>fb. contains fb px py \<longleftrightarrow>
      fb_x fb \<le> px \<and> px \<le> fb_x fb + fb_w fb \<and> fb_y fb \<le> py \<and> py \<le> fb_y fb + fb_h fb)"
proof (intro conjI allI impI)
  show "hit_test fs px py = None \<longleftrightarrow> (\<forall>j<length fs. \<not> contains (fs ! j) px py)"
    by (rule hit_test_None_iff)
next
  fix j fb
  show "hit_test fs px py = Some (j, fb) \<longleftrightarrow>
      j < length fs \<and> fb = fs ! j \<and> contains fb px py \<and>
      (\<forall>k<length fs. j < k \<longrightarrow> \<not> contains (fs ! k) px py)"
    by (rule hit_test_Some_iff)
next
  fix A B
  assume "contains A px py \<and> contains B px py"
  then show "hit_test [A, B] px py = Some (1, B)"
    using hit_test_snoc [of "[A]" B px py] by simp
next
  fix fb
  show "contains fb px py \<longleftrightarrow>
      fb_x fb \<le> px \<and> px \<le> fb_x fb + fb_w fb \<and> fb_y fb \<le> py \<and> py \<le> fb_y fb + fb_h fb"
    by (simp add: contains_def)
qed

text \<open>
  Two overlapping boxes: the corner (10, 10) of the first lies in both and goes to the
  second; (10, 4) lies on the edge of the first only; (16, 10) lies in neither.
\<close>

theorem hit_test_topmost_witness:
  "hit_test [FaceBox_init 0 0 10 10 1, FaceBox_init 5 5 10 10 2] 10 10
     = Some (1, FaceBox_init 5 5 10 10 2) \<and>
   hit_test [FaceBox_init 0 0 10 10 1, FaceBox_init 5 5 10 10 2] 10 4
     = Some (0, FaceBox_init 0 0 10 10 1) \<and>
   hit_test [FaceBox_init 0 0 10 10 1, FaceBox_init 5 5 10 10 2] 16 10 = None"
proof -
  let ?A = "FaceBox_init 0 0 10 10 1" and ?B = "FaceBox_init 5 5 10 10 2"
  have a: "contains ?A 10 10 \<and> contains ?B 10 10"
    by (simp add: contains_def FaceBox_init_def)
  have 1: "hit_test [?A, ?B] 10 10 = Some (1, ?B)"
    using hit_test_topmost [of "[?A, ?B]" 10 10] a by blast
  have "0 < length [?A, ?B] \<and> ?A = [?A, ?B] ! 0 \<and> contains ?A 10 4 \<and>
      (\<forall>k<length [?A, ?B]. 0 < k \<longrightarrow> \<not> contains ([?A, ?B] ! k) 10 4)"
    by (simp add: contains_def FaceBox_init_def less_Suc_eq numeral_2_eq_2)
  then have 2: "hit_test [?A, ?B] 10 4 = Some (0, ?A)"
    using hit_test_topmost [of "[?A, ?B]" 10 4] by blast
  have "\<forall>j<length [?A, ?B]. \<not> contains ([?A, ?B] ! j) 16 10"
    by (simp add: contains_def FaceBox_init_def less_Suc_eq numeral_2_eq_2 all_conj_distrib)
  then have 3: "hit_test [?A, ?B] 16 10 = None"
    using hit_test_topmost [of "[?A, ?B]" 16 10] by blast
  from 1 2 3 show ?thesis by simp
qed

subsection \<open>Searching the roster\<close>

text \<open>
  What holds of \<open>search\<close> for every regular expression engine: a query that is empty
  after \<open>strip\<close> returns every index in order, and every answer is an increasing list
  of indices of the frame. \<open>search\<close> reads the roster and writes nothing.
\<close>

lemma search_blank:
  "strip query = [] \<Longrightarrow> search re_compile r query = Inr [0..<length (df r)]"
  by (simp add: search_def lower_def)

lemma search_order:
  "search re_compile r query = Inr is \<Longrightarrow> sorted is \<and> distinct is \<and> set is \<subseteq> {..<length (df r)}"
  by (auto simp: search_def Let_def sorted_wrt_filter split: if_splits option.splits)

text \<open>
  Claim C6 at a roster whose admission numbers have capital letters. The query is put in
  lower case and so is the column \<open>Name\<close>, but not the column \<open>Admission_No\<close>: the
  query \<open>A001\<close> does not find the student with the admission number \<open>A001\<close>, while
  \<open>ANN\<close> finds Ann and the digits \<open>002\<close> find Bob by his number.
\<close>

theorem search_admission_no_upper_case:
  "search re_plain ann_bob ''A001'' = Inr [] \<and>
   search re_plain ann_bob ''ANN'' = Inr [0] \<and>
   search re_plain ann_bob ''002'' = Inr [1]"
  by code_simp

subsection \<open>Saving the attendance\<close>

lemma present_idxs_set:
  "i \<in> present_idxs fs \<longleftrightarrow> (\<exists>fb\<in>set fs. assigned_idx fb = Some i)"
  by (induction fs) (auto simp: present_idxs_def map_filter_simps split: option.splits)

lemma present_idxs_iff:
  "i \<in> present_idxs fs \<longleftrightarrow> (\<exists>j<length fs. assigned_idx (fs ! j) = Some i)"
  unfolding present_idxs_set by (metis in_set_conv_nth)

lemma length_status_rows [simp]: "length (status_rows app P now i rows) = length rows"
  by (induction rows arbitrary: i) simp_all

lemma status_rows_nth:
  "k < length rows \<Longrightarrow>
   status_rows app P now i rows ! k =
     \<lparr>out_Admission_No = Admission_No (rows ! k),
      out_Name = Name (rows ! k),
      out_Section = (if has_section (roster app) then Section (rows ! k) else []),
      Status = (if i + k \<in> P then ''Present'' else ''Absent''),
      Photo = (case photo_path app of None \<Rightarrow> [] | Some p \<Rightarrow> if p = [] then [] else basename p),
      Saved_At = now (Suc (i + k))\<rparr>"
proof (induction rows arbitrary: i k)
  case Nil
  then show ?case by simp
next
  case (Cons row rows)
  show ?case
  proof (cases k)
    case 0
    then show ?thesis by simp
  next
    case (Suc k')
    with Cons.prems have "k' < length rows" by simp
    from Cons.IH [OF this, of "Suc i"] Suc show ?thesis by simp
  qed
qed

lemma count_present_status_rows:
  "count_present (status_rows app P now i rows) = card (P \<inter> {i..<i + length rows})"
proof (induction rows arbitrary: i)
  case Nil
  show ?case by (simp add: count_present_def)
next
  case (Cons row rows)
  have split: "{i..<i + length (row # rows)} = insert i {Suc i..<Suc i + length rows}"
    by auto
  have fin: "finite (P \<inter> {Suc i..<Suc i + length rows})" by simp
  have notin: "i \<notin> P \<inter> {Suc i..<Suc i + length rows}" by simp
  have rest: "count_present (status_rows app P now (Suc i) rows)
                = card (P \<inter> {Suc i..<Suc i + length rows})"
    by (rule Cons.IH)
  show ?case
  proof (cases "i \<in> P")
    case True
    then have "P \<inter> {i..<i + length (row # rows)} = insert i (P \<inter> {Suc i..<Suc i + length rows})"
      unfolding split by blast
    then have "card (P \<inter> {i..<i + length (row # rows)})
        = card (insert i (P \<inter> {Suc i..<Suc i + length rows}))"
      by simp
    also have "\<dots> = Suc (card (P \<inter> {Suc i..<Suc i + length rows}))"
      using fin notin by (rule card_insert_disjoint)
    finally have "card (P \<inter> {i..<i + length (row # rows)})
        = Suc (card (P \<inter> {Suc i..<Suc i + length rows}))" .
    moreover have "count_present (status_rows app P now i (row # rows))
        = Suc (count_present (status_rows app P now (Suc i) rows))"
      using True by (simp add: count_present_def)
    ultimately show ?thesis using rest by simp
  next
    case False
    then have "P \<inter> {i..<i + length (row # rows)} = P \<inter> {Suc i..<Suc i + length rows}"
      unfolding split by blast
    moreover have "count_present (status_rows app P now i (row # rows))
        = count_present (status_rows app P now (Suc i) rows)"
      using False by (simp add: count_present_def)
    ultimately show ?thesis using rest by simp
  qed
qed

text \<open>
  Claim C2, as the code has it. For a roster that is not empty \<open>save_attendance\<close> runs
  to its end and builds one record for each row of the roster, in the order of the roster,
  with the row's admission number and name. The record of row \<open>i\<close> is Present exactly
  when some box of \<open>self.faces\<close> is bound to \<open>i\<close>. The number of Present records is
  the number of bound indices that are rows of the roster; it is the number of all bound
  indices when every bound index is a row of the roster.
\<close>

theorem save_attendance_report:
  assumes "df (roster app) \<noteq> []"
  shows "\<exists>recs. save_attendance app now = (Done, app, Some (now 0, recs)) \<and>
           length recs = length (df (roster app)) \<and>
           map out_Admission_No recs = map Admission_No (df (roster app)) \<and>
           map out_Name recs = map Name (df (roster app)) \<and>
           (\<forall>i<length recs.
              Status (recs ! i) =
                (if \<exists>j<length (faces app). assigned_idx (faces app ! j) = Some i
                 then ''Present'' else ''Absent'')) \<and>
           count_present recs
             = card (present_idxs (faces app) \<inter> {..<length (df (roster app))}) \<and>
           (present_idxs (faces app) \<subseteq> {..<length (df (roster app))} \<longrightarrow>
              count_present recs = card (present_idxs (faces app)))"
proof -
  let ?rows = "df (roster app)" and ?P = "present_idxs (faces app)"
  let ?recs = "status_rows app ?P now 0 ?rows"
  have run: "save_attendance app now = (Done, app, Some (now 0, ?recs))"
    using assms by (simp add: save_attendance_def)
  have len: "length ?recs = length ?rows" by simp
  have adm: "map out_Admission_No ?recs = map Admission_No ?rows"
    by (rule nth_equalityI) (simp_all add: status_rows_nth)
  have nam: "map out_Name ?recs = map Name ?rows"
    by (rule nth_equalityI) (simp_all add: status_rows_nth)
  have sta: "\<forall>i<length ?recs. Status (?recs ! i) =
      (if \<exists>j<length (faces app). assigned_idx (faces app ! j) = Some i
       then ''Present'' else ''Absent'')"
    by (simp add: status_rows_nth present_idxs_iff)
  have "{0..<0 + length ?rows} = {..<length ?rows}" by auto
  then have cnt: "count_present ?recs = card (?P \<inter> {..<length ?rows})"
    using count_present_status_rows [of app ?P now 0 ?rows] by simp
  have sub: "?P \<subseteq> {..<length ?rows} \<longrightarrow> count_present ?recs = card ?P"
  proof
    assume "?P \<subseteq> {..<length ?rows}"
    then have "?P \<inter> {..<length ?rows} = ?P" by blast
    with cnt show "count_present ?recs = card ?P" by simp
  qed
  show ?thesis using run len adm nam sta cnt sub by blast
qed

lemmas scenario_defs =
  scenario_app_def stale_app_def load_roster_def ann_bob_def bound_to_def App_init_def
  FaceBox_init_def

text \<open>
  The scenario of the specification: Ann and Bob, one box bound to Ann.
\<close>

theorem save_attendance_report_witness:
  "df (roster scenario_app) \<noteq> [] \<and>
   (\<exists>recs. save_attendance scenario_app second_passes = (Done, scenario_app, Some (100, recs)) \<and>
      length recs = 2 \<and> Status (recs ! 0) = ''Present'' \<and> Status (recs ! 1) = ''Absent'' \<and>
      count_present recs = 1)"
proof -
  have h: "df (roster scenario_app) \<noteq> []" by (simp add: scenario_defs)
  have p: "present_idxs (faces scenario_app) = {0}"
    by (simp add: scenario_defs present_idxs_def map_filter_simps)
  have l: "length (df (roster scenario_app)) = 2" by (simp add: scenario_defs)
  have f: "faces scenario_app = [bound_to 0 1]" by (simp add: scenario_defs)
  have c: "card (present_idxs (faces scenario_app) \<inter> {..<2}) = 1" by (simp add: p)
  from save_attendance_report [OF h, of second_passes]
  obtain recs where
    "save_attendance scenario_app second_passes = (Done, scenario_app, Some (second_passes 0, recs))"
    "length recs = 2"
    "\<forall>i<length recs. Status (recs ! i) =
       (if \<exists>j<length (faces scenario_app). assigned_idx (faces scenario_app ! j) = Some i
        then ''Present'' else ''Absent'')"
    "count_present recs = 1"
    unfolding l c by blast
  then show ?thesis using h
    by (auto simp: f second_passes_def bound_to_def)
qed

text \<open>
  Claim C2, as the specification states it, fails for a box that is bound to an index the
  roster does not have, which is what loading a shorter roster leaves behind: the box was
  bound to the sixth student of a class, the roster now has two rows, the set of bound
  indices has one element and no record is Present.
\<close>

theorem save_attendance_stale_index:
  "fst (save_attendance stale_app second_passes) = Done \<and>
   map Status (report_of (save_attendance stale_app second_passes)) = [''Absent'', ''Absent''] \<and>
   count_present (report_of (save_attendance stale_app second_passes)) = 0 \<and>
   card (present_idxs (faces stale_app)) = 1"
  by (simp add: save_attendance_def report_of_def count_present_def present_idxs_def
      map_filter_simps scenario_defs)




text \<open>
  Claim C9. With a roster of no rows \<open>save_attendance\<close> leaves through its first
  \<open>return\<close> (after the warning "Load a roster first."): no frame is built, the clock is
  not read, and the state is what it was.
\<close>

theorem save_attendance_empty_roster:
  "df (roster app) = [] \<Longrightarrow> save_attendance app now = (NoRoster, app, None)"
  by (simp add: save_attendance_def)

text \<open>
  The roster of a fresh \<open>App\<close>, with a box bound already.
\<close>

theorem save_attendance_empty_roster_witness:
  "save_attendance (App_init\<lparr>faces := [bound_to 0 1]\<rparr>) second_passes
     = (NoRoster, App_init\<lparr>faces := [bound_to 0 1]\<rparr>, None)"
  using save_attendance_empty_roster [of "App_init\<lparr>faces := [bound_to 0 1]\<rparr>" second_passes]
  by (simp add: App_init_def)

subsection \<open>Assigning a student to a face\<close>

lemma confirm_duplicates_iff:
  "confirm_duplicates ask n k idx ps \<longleftrightarrow>
     (\<forall>i<length (filter (\<lambda>(j, other). j \<noteq> k \<and> assigned_idx other = Some idx) ps). ask (n + i))"
proof (induction ps arbitrary: n)
  case Nil
  show ?case by simp
next
  case (Cons p ps)
  obtain j other where p: "p = (j, other)" by (cases p)
  show ?case
  proof (cases "j \<noteq> k \<and> assigned_idx other = Some idx")
    case True
    have "(\<forall>i<Suc m. ask (n + i)) \<longleftrightarrow> ask n \<and> (\<forall>i<m. ask (Suc n + i))" for m
      by (auto simp: less_Suc_eq_0_disj)
    with True show ?thesis by (simp add: p Cons.IH)
  next
    case False
    then show ?thesis by (auto simp: p Cons.IH)
  qed
qed

lemma confirm_duplicates_faces:
  "confirm_duplicates ask 0 k idx (enumerate 0 fs) \<longleftrightarrow>
     (\<forall>n<length (duplicates fs k idx). ask n)"
  by (simp add: confirm_duplicates_iff duplicates_def)

lemma duplicates_nonempty:
  assumes "j < length fs" "j \<noteq> k" "assigned_idx (fs ! j) = Some idx"
  shows "0 < length (duplicates fs k idx)"
proof -
  have "(j, fs ! j) \<in> set (enumerate 0 fs)"
    using assms(1) by (simp add: in_set_enumerate_eq)
  then have "(j, fs ! j) \<in> set (duplicates fs k idx)"
    using assms(2,3) by (simp add: duplicates_def)
  then show ?thesis by (cases "duplicates fs k idx") simp_all
qed

lemma refresh_present_list_keeps:
  "faces (snd (refresh_present_list app)) = faces app"
  "roster (snd (refresh_present_list app)) = roster app"
  by (simp_all add: refresh_present_list_def split: prod.splits option.splits)

text \<open>
  Claim C1. The dialog is open for the box at position \<open>k\<close>, the operator picks the
  roster index \<open>E\<close>, and another box, at position \<open>j\<close>, holds \<open>E\<close> already. Then
  \<open>do_assign\<close> asks at least one question. If one of the questions it asks is answered
  "no", it returns with the whole state as it was. If all of them are answered "yes", the
  faces afterwards are the faces before with \<open>E\<close> written to box \<open>k\<close>: both boxes
  hold \<open>E\<close>.
\<close>

theorem do_assign_duplicate_gate:
  assumes "k < length (faces app)" and "j < length (faces app)" and "j \<noteq> k"
    and "assigned_idx (faces app ! j) = Some E"
  shows "0 < length (duplicates (faces app) k E) \<and>
    ((\<exists>n<length (duplicates (faces app) k E). \<not> askyesno n) \<longrightarrow>
       do_assign app k (Some E) askyesno = (Declined, app)) \<and>
    ((\<forall>n<length (duplicates (faces app) k E). askyesno n) \<longrightarrow>
       faces (snd (do_assign app k (Some E) askyesno))
         = (faces app)[k := (faces app ! k)\<lparr>assigned_idx := Some E\<rparr>] \<and>
       assigned_idx (faces (snd (do_assign app k (Some E) askyesno)) ! j) = Some E \<and>
       assigned_idx (faces (snd (do_assign app k (Some E) askyesno)) ! k) = Some E)"
proof (intro conjI impI)
  show "0 < length (duplicates (faces app) k E)"
    using assms(2-4) by (rule duplicates_nonempty)
next
  assume "\<exists>n<length (duplicates (faces app) k E). \<not> askyesno n"
  then have "\<not> confirm_duplicates askyesno 0 k E (enumerate 0 (faces app))"
    by (simp add: confirm_duplicates_faces)
  then show "do_assign app k (Some E) askyesno = (Declined, app)"
    by (simp add: do_assign_def)
next
  assume "\<forall>n<length (duplicates (faces app) k E). askyesno n"
  then have "confirm_duplicates askyesno 0 k E (enumerate 0 (faces app))"
    by (simp add: confirm_duplicates_faces)
  then have fs: "faces (snd (do_assign app k (Some E) askyesno))
      = (faces app)[k := (faces app ! k)\<lparr>assigned_idx := Some E\<rparr>]"
    by (simp add: do_assign_def refresh_present_list_keeps)
  show "faces (snd (do_assign app k (Some E) askyesno))
      = (faces app)[k := (faces app ! k)\<lparr>assigned_idx := Some E\<rparr>]"
    by (rule fs)
  show "assigned_idx (faces (snd (do_assign app k (Some E) askyesno)) ! j) = Some E"
    using assms(3,4) by (simp add: fs)
  show "assigned_idx (faces (snd (do_assign app k (Some E) askyesno)) ! k) = Some E"
    using assms(1) by (simp add: fs)
qed

text \<open>
  Ann is bound to the first box and is picked for the second: declined, nothing changes;
  confirmed, both boxes hold her index.
\<close>

theorem do_assign_duplicate_gate_witness:
  "do_assign two_faces 1 (Some 0) no = (Declined, two_faces) \<and>
   map assigned_idx (faces two_faces) = [Some 0, None] \<and>
   map assigned_idx (faces (snd (do_assign two_faces 1 (Some 0) yes))) = [Some 0, Some 0]"
proof -
  have f: "faces two_faces = [bound_to 0 1, FaceBox_init 50 50 40 40 2]"
    by (simp add: two_faces_def App_init_def)
  have h1: "1 < length (faces two_faces)" and h2: "0 < length (faces two_faces)"
    and h3: "(0::nat) \<noteq> 1" and h4: "assigned_idx (faces two_faces ! 0) = Some 0"
    by (simp_all add: f bound_to_def)
  note gate = do_assign_duplicate_gate [OF h1 h2 h3 h4]
  have d: "length (duplicates (faces two_faces) 1 0) = 1"
    by (simp add: f duplicates_def enumerate_eq_zip bound_to_def FaceBox_init_def upt_rec)
  have "\<exists>n<length (duplicates (faces two_faces) 1 0). \<not> no n"
    unfolding d by (simp add: no_def)
  with gate [of no] have a: "do_assign two_faces 1 (Some 0) no = (Declined, two_faces)"
    by blast
  have "\<forall>n<length (duplicates (faces two_faces) 1 0). yes n"
    by (simp add: yes_def)
  with gate [of yes] have b: "faces (snd (do_assign two_faces 1 (Some 0) yes))
      = (faces two_faces)[1 := (faces two_faces ! 1)\<lparr>assigned_idx := Some 0\<rparr>]"
    by blast
  have c: "map assigned_idx (faces (snd (do_assign two_faces 1 (Some 0) yes)))
      = [Some 0, Some 0]"
    unfolding b by (simp add: f bound_to_def FaceBox_init_def)
  have e: "map assigned_idx (faces two_faces) = [Some 0, None]"
    by (simp add: f bound_to_def FaceBox_init_def)
  from a e c show ?thesis by (intro conjI)
qed

subsection \<open>Removing a student from the list of present students\<close>

lemma clear_first_first:
  assumes "j1 < length fs" and "assigned_idx (fs ! j1) = Some i1" and "get_display r i1 = Inr d"
    and "\<forall>j<j1. \<forall>i. assigned_idx (fs ! j) = Some i \<longrightarrow>
           (\<exists>d'. get_display r i = Inr d' \<and> d' \<noteq> d)"
  shows "clear_first r d fs = Inr (fs[j1 := (fs ! j1)\<lparr>assigned_idx := None\<rparr>])"
  using assms
proof (induction fs arbitrary: j1)
  case Nil
  then show ?case by simp
next
  case (Cons fb fbs)
  show ?case
  proof (cases j1)
    case 0
    with Cons.prems(2,3) show ?thesis by simp
  next
    case (Suc j)
    have a: "j < length fbs" using Cons.prems(1) Suc by simp
    have b: "assigned_idx (fbs ! j) = Some i1" using Cons.prems(2) Suc by simp
    have c: "\<forall>j'<j. \<forall>i. assigned_idx (fbs ! j') = Some i \<longrightarrow>
           (\<exists>d'. get_display r i = Inr d' \<and> d' \<noteq> d)"
    proof (intro allI impI)
      fix j' i
      assume "j' < j" and "assigned_idx (fbs ! j') = Some i"
      then have "Suc j' < j1" and "assigned_idx ((fb # fbs) ! Suc j') = Some i"
        using Suc by simp_all
      with Cons.prems(4) show "\<exists>d'. get_display r i = Inr d' \<and> d' \<noteq> d" by blast
    qed
    have rest: "clear_first r d fbs = Inr (fbs[j := (fbs ! j)\<lparr>assigned_idx := None\<rparr>])"
      by (rule Cons.IH [OF a b Cons.prems(3) c])
    have hd: "\<forall>i. assigned_idx fb = Some i \<longrightarrow> (\<exists>d'. get_display r i = Inr d' \<and> d' \<noteq> d)"
      using Cons.prems(4) Suc by (auto dest: spec [of _ 0])
    show ?thesis
    proof (cases "assigned_idx fb")
      case None
      then show ?thesis by (simp add: rest Suc)
    next
      case (Some i)
      with hd obtain d' where "get_display r i = Inr d'" "d' \<noteq> d" by blast
      with Some show ?thesis by (simp add: rest Suc)
    qed
  qed
qed

text \<open>
  Claim C10, as the code has it. The selected line of the list of present students reads
  as the display of roster row \<open>E\<close>; boxes \<open>j1 < j2\<close> are bound to \<open>E\<close>; and every
  bound box before \<open>j1\<close> is bound to a row of the roster whose display reads
  differently. Then \<open>remove_selected\<close> clears box \<open>j1\<close> and no other box: box
  \<open>j2\<close> keeps \<open>E\<close>, \<open>E\<close> is still among the present indices, and a report saved
  afterwards has \<open>E\<close> Present.
\<close>

theorem remove_selected_first_only:
  assumes "s < length (present_list app)" and "present_list app ! s = d"
    and "get_display (roster app) E = Inr d"
    and "j1 < j2" and "j2 < length (faces app)"
    and "assigned_idx (faces app ! j1) = Some E" and "assigned_idx (faces app ! j2) = Some E"
    and "\<forall>j<j1. \<forall>i. assigned_idx (faces app ! j) = Some i \<longrightarrow>
           (\<exists>d'. get_display (roster app) i = Inr d' \<and> d' \<noteq> d)"
  shows "faces (snd (remove_selected app (Some s)))
           = (faces app)[j1 := (faces app ! j1)\<lparr>assigned_idx := None\<rparr>] \<and>
         assigned_idx (faces (snd (remove_selected app (Some s))) ! j2) = Some E \<and>
         E \<in> present_idxs (faces (snd (remove_selected app (Some s)))) \<and>
         (\<exists>recs. save_attendance (snd (remove_selected app (Some s))) now
                    = (Done, snd (remove_selected app (Some s)), Some (now 0, recs)) \<and>
                  E < length recs \<and> Status (recs ! E) = ''Present'')"
proof -
  let ?fs' = "(faces app)[j1 := (faces app ! j1)\<lparr>assigned_idx := None\<rparr>]"
  let ?app' = "snd (remove_selected app (Some s))"
  have j1: "j1 < length (faces app)" using assms(4,5) by simp
  have cf: "clear_first (roster app) d (faces app) = Inr ?fs'"
    by (rule clear_first_first [OF j1 assms(6) assms(3) assms(8)])
  have run: "remove_selected app (Some s) = refresh_present_list (app\<lparr>faces := ?fs'\<rparr>)"
    using assms(1,2) by (simp add: remove_selected_def cf)
  have fs: "faces ?app' = ?fs'" by (simp add: run refresh_present_list_keeps)
  have ro: "roster ?app' = roster app" by (simp add: run refresh_present_list_keeps)
  have k2: "assigned_idx (faces ?app' ! j2) = Some E"
    using assms(4,7) by (simp add: fs)
  have "j2 < length (faces ?app')" using assms(5) by (simp add: fs)
  with k2 have pr: "E \<in> present_idxs (faces ?app')" by (auto simp: present_idxs_iff)
  have E: "E < length (df (roster app))"
    using assms(3) by (simp add: get_display_def split: if_splits)
  then have ne: "df (roster ?app') \<noteq> []" unfolding ro by auto
  let ?recs = "status_rows ?app' (present_idxs (faces ?app')) now 0 (df (roster ?app'))"
  have sv: "save_attendance ?app' now = (Done, ?app', Some (now 0, ?recs))"
    using ne by (simp add: save_attendance_def)
  have len: "E < length ?recs" using E by (simp add: ro)
  have st: "Status (?recs ! E) = ''Present''"
    using E pr by (simp add: status_rows_nth ro)
  show ?thesis using fs k2 pr sv len st by blast
qed

lemmas display_defs =
  three_faces_def twins_def ann_bob_def bound_to_def App_init_def FaceBox_init_def
  refresh_present_list_def get_display_def

text \<open>
  Ann and Bob; Bob in the first box, Ann in the other two; Ann's line is removed.
\<close>

theorem remove_selected_first_only_witness:
  "map assigned_idx (faces (three_faces ann_bob)) = [Some 1, Some 0, Some 0] \<and>
   length (present_list (three_faces ann_bob)) = 2 \<and>
   get_display ann_bob 0 = Inr (present_list (three_faces ann_bob) ! 1) \<and>
   map assigned_idx (faces (snd (remove_selected (three_faces ann_bob) (Some 1))))
     = [Some 1, None, Some 0]"
proof -
  let ?app = "three_faces ann_bob"
  have f: "faces ?app = [bound_to 1 1, bound_to 0 2, bound_to 0 3]"
    by (simp add: three_faces_def refresh_present_list_keeps App_init_def)
  have r: "roster ?app = ann_bob"
    by (simp add: three_faces_def refresh_present_list_keeps App_init_def)
  have p: "present_list ?app = [''Bob'' @ ''  '' @ [CHR 0xE2, CHR 0x80, CHR 0x94] @ ''  '' @ ''A002'',
       ''Ann'' @ ''  '' @ [CHR 0xE2, CHR 0x80, CHR 0x94] @ ''  '' @ ''A001'']"
    by (simp add: display_defs)
  have h1: "1 < length (present_list ?app)" by (simp add: p)
  have h3: "get_display (roster ?app) 0 = Inr (present_list ?app ! 1)"
    unfolding r p by (simp add: get_display_def ann_bob_def)
  have g1: "get_display ann_bob (Suc 0)
      = Inr (''Bob'' @ ''  '' @ [CHR 0xE2, CHR 0x80, CHR 0x94] @ ''  '' @ ''A002'')"
    by (simp add: get_display_def ann_bob_def)
  have h4: "(1::nat) < 2" by simp
  have h5: "2 < length (faces ?app)" by (simp add: f)
  have h6: "assigned_idx (faces ?app ! 1) = Some 0" by (simp add: f bound_to_def)
  have h7: "assigned_idx (faces ?app ! 2) = Some 0" by (simp add: f bound_to_def)
  have h8: "\<forall>j<1. \<forall>i. assigned_idx (faces ?app ! j) = Some i \<longrightarrow>
      (\<exists>d'. get_display (roster ?app) i = Inr d' \<and> d' \<noteq> present_list ?app ! 1)"
    unfolding r p f by (auto simp: bound_to_def g1)
  from remove_selected_first_only [OF h1 refl h3 h4 h5 h6 h7 h8]
  have "faces (snd (remove_selected ?app (Some 1)))
      = (faces ?app)[1 := (faces ?app ! 1)\<lparr>assigned_idx := None\<rparr>]"
    by blast
  then have a: "map assigned_idx (faces (snd (remove_selected ?app (Some 1))))
      = [Some 1, None, Some 0]"
    by (simp add: f bound_to_def FaceBox_init_def)
  have b: "map assigned_idx (faces ?app) = [Some 1, Some 0, Some 0]"
    by (simp add: f bound_to_def FaceBox_init_def)
  have c: "length (present_list ?app) = 2" by (simp add: p)
  from b c h3 a show ?thesis unfolding r by (intro conjI)
qed

text \<open>
  Claim C10, as the specification states it, fails when two rows of the roster read the
  same: \<open>remove_selected\<close> finds the box by the text of the line. With row 1 bound to
  the first box and row 0 to the other two, removing the line of row 0 clears the first
  box, which is bound to row 1; the first box bound to row 0 keeps its student.
\<close>

theorem remove_selected_same_display:
  "map assigned_idx (faces (three_faces twins)) = [Some 1, Some 0, Some 0] \<and>
   length (present_list (three_faces twins)) = 2 \<and>
   get_display twins 0 = Inr (present_list (three_faces twins) ! 1) \<and>
   map assigned_idx (faces (snd (remove_selected (three_faces twins) (Some 1))))
     = [None, Some 0, Some 0]"
  by (simp add: display_defs remove_selected_def)

end
